theory Spec2Isabelle
  imports Complex_Main "HOL-Library.Multiset"
begin

section \<open>Data model\<close>

text \<open>
  One row of the Statcast table, restricted to the three columns that
  \<^verbatim>\<open>process_all_players\<close> keeps. \<open>game_date\<close> is the parsed date as a day
  number; \<open>events\<close> is \<open>None\<close> where the cell is empty (NaN). The batter and
  the date of a row are always present; only the event category may be absent.
\<close>

record event =
  batter :: int
  game_date :: int
  events :: "string option"

text \<open>
  The row after \<^verbatim>\<open>get_pa_outcomes\<close> has added its three columns. \<open>is_hit\<close> and
  \<open>is_on_base\<close> are integer columns, \<open>total_bases\<close> is a float column whose
  values are the whole numbers 0 to 4. Sums of such values are exact in binary64,
  so the numeric columns are modelled by exact rationals; a mean of the model is
  the exact quotient, of which the program holds the binary64 rounding.
\<close>

record pa = event +
  is_hit :: int
  is_on_base :: int
  total_bases :: rat

text \<open>
  One row of the frame built by \<^verbatim>\<open>compute_rolling_stats\<close>. The column the source
  calls \<^verbatim>\<open>game_date\<close> is the field \<open>obs_date\<close> here, since the name is taken
  by the input record. \<open>None\<close> is NaN.
\<close>

record rolling_observation =
  player_id :: int
  obs_date :: int
  rolling_window :: nat
  rolling_avg :: "rat option"
  rolling_obp :: "rat option"
  rolling_slg :: "rat option"
  next_is_hit :: "rat option"
  next_is_on_base :: "rat option"
  next_total_bases :: "rat option"

datatype error = ValueError string

section \<open>Column operations of the data-frame library\<close>

text \<open>\<^verbatim>\<open>Series.isin(values)\<close>: membership, false on an empty cell.\<close>

definition isin :: "string list \<Rightarrow> string option \<Rightarrow> bool" where
  "isin vals v = (case v of None \<Rightarrow> False | Some s \<Rightarrow> s \<in> set vals)"

text \<open>\<^verbatim>\<open>astype(int)\<close> on a boolean column.\<close>

definition astype_int :: "bool \<Rightarrow> int" where
  "astype_int b = (if b then 1 else 0)"

text \<open>\<^verbatim>\<open>Series.map(dict)\<close>: a key that is not in the dictionary, and an empty cell,
  give NaN.\<close>

definition map_dict :: "(string \<times> rat) list \<Rightarrow> string option \<Rightarrow> rat option" where
  "map_dict d v = (case v of None \<Rightarrow> None | Some s \<Rightarrow> map_of d s)"

text \<open>\<^verbatim>\<open>fillna(z)\<close>.\<close>

definition fillna :: "rat \<Rightarrow> rat option \<Rightarrow> rat" where
  "fillna z v = (case v of None \<Rightarrow> z | Some x \<Rightarrow> x)"

section \<open>Step 2: plate-appearance outcomes\<close>

definition hit_events :: "string list" where
  "hit_events = [''single'', ''double'', ''triple'', ''home_run'']"

definition on_base_events :: "string list" where
  "on_base_events = [''single'', ''double'', ''triple'', ''home_run'', ''walk'', ''hit_by_pitch'']"

definition bases_dict :: "(string \<times> rat) list" where
  "bases_dict = [(''single'', 1), (''double'', 2), (''triple'', 3), (''home_run'', 4)]"

text \<open>What the three column assignments of \<^verbatim>\<open>get_pa_outcomes\<close> do to one row.\<close>

definition label_row :: "event \<Rightarrow> pa" where
  "label_row e =
     \<lparr> batter = batter e, game_date = game_date e, events = events e,
       is_hit = astype_int (isin hit_events (events e)),
       is_on_base = astype_int (isin on_base_events (events e)),
       total_bases = fillna 0 (map_dict bases_dict (events e)) \<rparr>"

definition get_pa_outcomes :: "event list \<Rightarrow> pa list" where
  "get_pa_outcomes df = map label_row df"

text \<open>The range of the three signals of a labeled row, as the statements about the
  rolling statistics use it.\<close>

definition signals_ok :: "pa \<Rightarrow> bool" where
  "signals_ok e \<longleftrightarrow>
     0 \<le> is_hit e \<and> is_hit e \<le> is_on_base e \<and> is_on_base e \<le> 1 \<and>
     0 \<le> total_bases e \<and> total_bases e \<le> 4"

section \<open>Step 2: rolling statistics of one player\<close>

text \<open>
  \<^verbatim>\<open>Series.rolling(w).mean()\<close> with the default \<^verbatim>\<open>min_periods = w\<close>: the window
  of position \<open>i\<close> holds the at most \<open>w\<close> values ending at \<open>i\<close>; the result is their
  mean when the window holds at least \<open>w\<close> (and at least one) observations and NaN
  otherwise. The columns it is applied to hold no NaN.
\<close>

definition window_at :: "nat \<Rightarrow> nat \<Rightarrow> 'a list \<Rightarrow> 'a list" where
  "window_at w i xs = drop (Suc i - w) (take (Suc i) xs)"

definition rolling_mean :: "nat \<Rightarrow> rat list \<Rightarrow> rat option list" where
  "rolling_mean w xs =
     map (\<lambda>i. let win = window_at w i xs; nobs = length win
              in if w \<le> nobs \<and> 0 < nobs then Some (sum_list win / of_nat nobs) else None)
         [0..<length xs]"

text \<open>\<^verbatim>\<open>Series.shift(-k)\<close>: every value moves \<open>k\<close> positions towards the start, and
  the vacated positions at the end are NaN.\<close>

definition shift_back :: "nat \<Rightarrow> rat list \<Rightarrow> rat option list" where
  "shift_back k xs = map Some (drop k xs) @ replicate (min k (length xs)) None"

text \<open>
  The body of the loop over \<^verbatim>\<open>window\<close>: the frame \<^verbatim>\<open>temp\<close>, whose columns all
  carry the index of the sorted \<^verbatim>\<open>df\<close>, so that row \<open>i\<close> takes entry \<open>i\<close> of each.
\<close>

definition window_frame :: "pa list \<Rightarrow> nat \<Rightarrow> rolling_observation list" where
  "window_frame df window =
     (let avg_col = rolling_mean window (map (\<lambda>e. of_int (is_hit e)) df);
          obp_col = rolling_mean window (map (\<lambda>e. of_int (is_on_base e)) df);
          slg_col = rolling_mean window (map total_bases df);
          hit_col = shift_back 1 (map (\<lambda>e. of_int (is_hit e)) df);
          onb_col = shift_back 1 (map (\<lambda>e. of_int (is_on_base e)) df);
          tb_col = shift_back 1 (map total_bases df)
      in map (\<lambda>i. \<lparr> player_id = batter (df ! i), obs_date = game_date (df ! i),
                     rolling_window = window,
                     rolling_avg = avg_col ! i, rolling_obp = obp_col ! i,
                     rolling_slg = slg_col ! i,
                     next_is_hit = hit_col ! i, next_is_on_base = onb_col ! i,
                     next_total_bases = tb_col ! i \<rparr>)
             [0..<length df])"

text \<open>\<^verbatim>\<open>pd.concat(frames)\<close> raises \<^verbatim>\<open>ValueError\<close> on an empty list of frames.\<close>

definition pd_concat :: "'a list list \<Rightarrow> error + 'a list" where
  "pd_concat frames =
     (if frames = [] then Inl (ValueError ''No objects to concatenate'')
      else Inr (concat frames))"

text \<open>
  \<^verbatim>\<open>compute_rolling_stats(df, max_window)\<close>. The call
  \<^verbatim>\<open>df.sort_values(by='game_date')\<close> is the parameter \<open>sort_values\<close>: the source
  leaves the sorting algorithm at the library's default. Window sizes are natural
  numbers; a negative \<^verbatim>\<open>max_window\<close> gives the same empty range as 0.
\<close>

definition compute_rolling_stats ::
  "(pa list \<Rightarrow> pa list) \<Rightarrow> pa list \<Rightarrow> nat \<Rightarrow> error + rolling_observation list" where
  "compute_rolling_stats sort_values df max_window =
     (let df = sort_values df;
          results = map (window_frame df) [1..<Suc max_window]
      in pd_concat results)"

text \<open>
  What the library promises of \<^verbatim>\<open>sort_values(by='game_date')\<close> with the default
  \<^verbatim>\<open>kind='quicksort'\<close>: the rows of the frame, reordered so that the dates
  ascend. The order it gives to rows of equal date is decided by the library's
  sorting routine, which is not part of the source; no statement below depends
  on it.
\<close>

definition sorts_by_game_date :: "(pa list \<Rightarrow> pa list) \<Rightarrow> bool" where
  "sorts_by_game_date srt \<longleftrightarrow>
     (\<forall>df. sorted (map game_date (srt df)) \<and> mset (srt df) = mset df)"

text \<open>One sorting function that keeps this promise, insertion sort; the statements
  below are instantiated with it.\<close>

definition stable_sort_values :: "pa list \<Rightarrow> pa list" where
  "stable_sort_values df = sort_key game_date df"

section \<open>Step 2: all players\<close>

text \<open>\<^verbatim>\<open>data.groupby('batter')\<close>: one group per batter, in ascending order of the
  batter, each holding the batter's rows in the order of the frame.\<close>

definition groupby_batter :: "pa list \<Rightarrow> (int \<times> pa list) list" where
  "groupby_batter data =
     map (\<lambda>b. (b, filter (\<lambda>e. batter e = b) data)) (sort (remdups (map batter data)))"

text \<open>The loop over the groups, with the list \<^verbatim>\<open>all_rolling\<close> as accumulator;
  \<^verbatim>\<open>compute_rolling_stats\<close> is called with its default \<^verbatim>\<open>max_window=250\<close>.\<close>

fun process_groups ::
  "(pa list \<Rightarrow> pa list) \<Rightarrow> (int \<times> pa list) list \<Rightarrow> rolling_observation list list
     \<Rightarrow> error + rolling_observation list list" where
  "process_groups sort_values [] all_rolling = Inr all_rolling"
| "process_groups sort_values ((b, grp) # rest) all_rolling =
     (if length grp < 260 then process_groups sort_values rest all_rolling
      else case compute_rolling_stats sort_values grp 250 of
             Inl e \<Rightarrow> Inl e
           | Inr stats \<Rightarrow> process_groups sort_values rest (all_rolling @ [stats]))"

text \<open>The frame that \<^verbatim>\<open>compute_rolling_stats(group)\<close> returns for one group, as the
  statements about the loop name it.\<close>

definition player_frame :: "(pa list \<Rightarrow> pa list) \<Rightarrow> pa list \<Rightarrow> rolling_observation list" where
  "player_frame sort_values grp = concat (map (window_frame (sort_values grp)) [1..<Suc 250])"

text \<open>\<^verbatim>\<open>dropna()\<close>: a row stays when none of its cells is NaN. The three columns
  \<^verbatim>\<open>player_id\<close>, \<^verbatim>\<open>game_date\<close> and \<^verbatim>\<open>rolling_window\<close> are never NaN.\<close>

definition notna :: "rolling_observation \<Rightarrow> bool" where
  "notna r \<longleftrightarrow>
     rolling_avg r \<noteq> None \<and> rolling_obp r \<noteq> None \<and> rolling_slg r \<noteq> None \<and>
     next_is_hit r \<noteq> None \<and> next_is_on_base r \<noteq> None \<and> next_total_bases r \<noteq> None"

definition dropna :: "rolling_observation list \<Rightarrow> rolling_observation list" where
  "dropna rows = filter notna rows"

text \<open>\<^verbatim>\<open>process_all_players(data)\<close>, without the write of the CSV file.\<close>

definition process_all_players ::
  "(pa list \<Rightarrow> pa list) \<Rightarrow> event list \<Rightarrow> error + rolling_observation list" where
  "process_all_players sort_values data =
     (let data = get_pa_outcomes data;
          grouped = groupby_batter data
      in case process_groups sort_values grouped [] of
           Inl e \<Rightarrow> Inl e
         | Inr all_rolling \<Rightarrow>
             (case pd_concat all_rolling of
                Inl e \<Rightarrow> Inl e
              | Inr final_df \<Rightarrow> Inr (dropna final_df)))"

section \<open>Properties of the outcome labeler\<close>

lemma is_hit_label_row:
  "is_hit (label_row e) =
     (if events e \<in> Some ` {''single'', ''double'', ''triple'', ''home_run''} then 1 else 0)"
  by (cases "events e") (auto simp: label_row_def isin_def astype_int_def hit_events_def)

lemma is_on_base_label_row:
  "is_on_base (label_row e) =
     (if events e \<in> Some ` {''single'', ''double'', ''triple'', ''home_run'', ''walk'', ''hit_by_pitch''}
      then 1 else 0)"
  by (cases "events e") (auto simp: label_row_def isin_def astype_int_def on_base_events_def)

lemma total_bases_label_row:
  "total_bases (label_row e) =
     (case events e of
        None \<Rightarrow> 0
      | Some c \<Rightarrow>
          if c = ''single'' then 1 else if c = ''double'' then 2
          else if c = ''triple'' then 3 else if c = ''home_run'' then 4 else 0)"
  by (cases "events e") (simp_all add: label_row_def map_dict_def fillna_def bases_dict_def)

lemma label_row_signal_bounds:
  "0 \<le> is_hit (label_row e) \<and> is_hit (label_row e) \<le> is_on_base (label_row e) \<and>
   is_on_base (label_row e) \<le> 1 \<and> 0 \<le> total_bases (label_row e) \<and> total_bases (label_row e) \<le> 4"
  by (cases "events e")
     (auto simp: label_row_def isin_def astype_int_def hit_events_def on_base_events_def
        map_dict_def fillna_def bases_dict_def)

text \<open>
  C2. The outcome labeler is total and follows the category table: it returns one
  labeled row for every input row, whatever the category; \<open>is_hit\<close> is 1 exactly on
  single, double, triple and home run; \<open>is_on_base\<close> is 1 exactly on those and on
  walk and hit by pitch; \<open>total_bases\<close> is 1, 2, 3, 4 on single, double, triple,
  home run and 0 on every other category and on an absent one.
\<close>

theorem get_pa_outcomes_mapping:
  "length (get_pa_outcomes df) = length df \<and>
   (\<forall>i < length df.
      is_hit (get_pa_outcomes df ! i) =
        (if events (df ! i) \<in> Some ` {''single'', ''double'', ''triple'', ''home_run''}
         then 1 else 0) \<and>
      is_on_base (get_pa_outcomes df ! i) =
        (if events (df ! i) \<in>
              Some ` {''single'', ''double'', ''triple'', ''home_run'', ''walk'', ''hit_by_pitch''}
         then 1 else 0) \<and>
      total_bases (get_pa_outcomes df ! i) =
        (case events (df ! i) of
           None \<Rightarrow> 0
         | Some c \<Rightarrow>
             if c = ''single'' then 1 else if c = ''double'' then 2
             else if c = ''triple'' then 3 else if c = ''home_run'' then 4 else 0))"
  unfolding get_pa_outcomes_def
  by (simp add: is_hit_label_row is_on_base_label_row total_bases_label_row)

theorem get_pa_outcomes_mapping_witness:
  "(let df = [\<lparr>batter = 7, game_date = 3, events = Some ''home_run''\<rparr>,
              \<lparr>batter = 7, game_date = 3, events = Some ''walk''\<rparr>,
              \<lparr>batter = 7, game_date = 4, events = Some ''field_out''\<rparr>,
              \<lparr>batter = 7, game_date = 4, events = None\<rparr>]
    in length (get_pa_outcomes df) = 4 \<and>
       map is_hit (get_pa_outcomes df) = [1, 0, 0, 0] \<and>
       map is_on_base (get_pa_outcomes df) = [1, 1, 0, 0] \<and>
       map total_bases (get_pa_outcomes df) = [4, 0, 0, 0])"
  using get_pa_outcomes_mapping
    [of "[\<lparr>batter = 7, game_date = 3, events = Some ''home_run''\<rparr>,
          \<lparr>batter = 7, game_date = 3, events = Some ''walk''\<rparr>,
          \<lparr>batter = 7, game_date = 4, events = Some ''field_out''\<rparr>,
          \<lparr>batter = 7, game_date = 4, events = None\<rparr>]"]
  by (simp add: Let_def list_eq_iff_nth_eq less_Suc_eq all_conj_distrib)

text \<open>
  C3. Every labeled row satisfies the signal invariant: a hit is on base, and a
  positive number of total bases is a hit.
\<close>

theorem get_pa_outcomes_invariant:
  "r \<in> set (get_pa_outcomes df) \<Longrightarrow>
     (is_hit r = 1 \<longrightarrow> is_on_base r = 1) \<and> (total_bases r > 0 \<longrightarrow> is_hit r = 1)"
proof -
  assume "r \<in> set (get_pa_outcomes df)"
  then obtain e where r: "r = label_row e"
    by (auto simp: get_pa_outcomes_def)
  show ?thesis
    unfolding r
    by (cases "events e")
       (auto simp: label_row_def isin_def astype_int_def hit_events_def on_base_events_def
          map_dict_def fillna_def bases_dict_def split: if_splits)
qed

theorem get_pa_outcomes_invariant_witness:
  "label_row \<lparr>batter = 7, game_date = 3, events = Some ''double''\<rparr>
     \<in> set (get_pa_outcomes [\<lparr>batter = 7, game_date = 3, events = Some ''double''\<rparr>]) \<and>
   is_hit (label_row \<lparr>batter = 7, game_date = 3, events = Some ''double''\<rparr>) = 1 \<and>
   is_on_base (label_row \<lparr>batter = 7, game_date = 3, events = Some ''double''\<rparr>) = 1 \<and>
   total_bases (label_row \<lparr>batter = 7, game_date = 3, events = Some ''double''\<rparr>) > 0"
proof -
  have m: "label_row \<lparr>batter = 7, game_date = 3, events = Some ''double''\<rparr>
             \<in> set (get_pa_outcomes [\<lparr>batter = 7, game_date = 3, events = Some ''double''\<rparr>])"
    by (simp add: get_pa_outcomes_def)
  have t: "total_bases (label_row \<lparr>batter = 7, game_date = 3, events = Some ''double''\<rparr>) > 0"
    by (simp add: label_row_def map_dict_def fillna_def bases_dict_def)
  from get_pa_outcomes_invariant [OF m] t m show ?thesis
    by simp
qed

section \<open>Properties of the rolling statistics\<close>

lemma window_at_nth:
  "i < length xs \<Longrightarrow> window_at w i xs = map ((!) xs) [Suc i - w..<Suc i]"
proof -
  assume i: "i < length xs"
  have "take (Suc i) xs = map ((!) xs) [0..<Suc i]"
    using i by (metis Suc_leI map_nth take_map take_upt add_0)
  then show ?thesis
    by (simp add: window_at_def drop_map del: upt_Suc)
qed

lemma length_window_at: "i < length xs \<Longrightarrow> length (window_at w i xs) = min w (Suc i)"
  by (simp add: window_at_def) 

lemma sum_list_window_at:
  "i < length xs \<Longrightarrow> sum_list (window_at w i xs) = (\<Sum>j = Suc i - w..i. xs ! j)"
  by (simp add: window_at_nth interv_sum_list_conv_sum_set_nat atLeastLessThanSuc_atLeastAtMost del: upt_Suc)

lemma length_rolling_mean: "length (rolling_mean w xs) = length xs"
  by (simp add: rolling_mean_def)

lemma nth_rolling_mean:
  "0 < w \<Longrightarrow> i < length xs \<Longrightarrow>
   rolling_mean w xs ! i =
     (if w \<le> Suc i then Some ((\<Sum>j = Suc i - w..i. xs ! j) / of_nat w) else None)"
proof -
  assume w: "0 < w" and i: "i < length xs"
  have len: "length (window_at w i xs) = min w (Suc i)"
    using i by (rule length_window_at)
  have "rolling_mean w xs ! i =
          (if w \<le> min w (Suc i) \<and> 0 < min w (Suc i)
           then Some (sum_list (window_at w i xs) / of_nat (min w (Suc i))) else None)"
    using i by (simp add: rolling_mean_def Let_def len del: upt_Suc length_greater_0_conv)
  also have "\<dots> = (if w \<le> Suc i then Some ((\<Sum>j = Suc i - w..i. xs ! j) / of_nat w) else None)"
    using w i by (simp add: sum_list_window_at min_def)
  finally show ?thesis .
qed

lemma length_shift_back: "length (shift_back k xs) = length xs"
  by (simp add: shift_back_def)

lemma nth_shift_back:
  "i < length xs \<Longrightarrow>
   shift_back k xs ! i = (if i + k < length xs then Some (xs ! (i + k)) else None)"
proof (cases "i + k < length xs")
  case True
  then show ?thesis
    by (simp add: shift_back_def nth_append add.commute)
next
  case False
  assume i: "i < length xs"
  from False i have "i - (length xs - k) < min k (length xs)" and "\<not> i < length xs - k"
    by arith+
  with False show ?thesis
    by (simp add: shift_back_def nth_append)
qed

lemma length_window_frame: "length (window_frame df w) = length df"
  by (simp add: window_frame_def Let_def)


lemma sum_nth_map: "i < length df \<Longrightarrow> (\<Sum>j = a..i. map f df ! j) = (\<Sum>j = a..i. f (df ! j))"
  by (rule sum.cong) auto

lemma nth_window_frame:
  assumes "0 < w" and "i < length df"
  shows "window_frame df w ! i =
     \<lparr> player_id = batter (df ! i), obs_date = game_date (df ! i), rolling_window = w,
       rolling_avg = (if w \<le> Suc i
                      then Some ((\<Sum>j = Suc i - w..i. of_int (is_hit (df ! j))) / of_nat w) else None),
       rolling_obp = (if w \<le> Suc i
                      then Some ((\<Sum>j = Suc i - w..i. of_int (is_on_base (df ! j))) / of_nat w) else None),
       rolling_slg = (if w \<le> Suc i
                      then Some ((\<Sum>j = Suc i - w..i. total_bases (df ! j)) / of_nat w) else None),
       next_is_hit = (if Suc i < length df then Some (of_int (is_hit (df ! Suc i))) else None),
       next_is_on_base = (if Suc i < length df then Some (of_int (is_on_base (df ! Suc i))) else None),
       next_total_bases = (if Suc i < length df then Some (total_bases (df ! Suc i)) else None) \<rparr>"
  using assms
  by (simp add: window_frame_def Let_def nth_rolling_mean nth_shift_back sum_nth_map del: upt_Suc)

lemma rolling_window_window_frame: "r \<in> set (window_frame df w) \<Longrightarrow> rolling_window r = w"
  by (auto simp: window_frame_def Let_def)

lemma nth_concat_uniform:
  "\<forall>x \<in> set xss. length x = n \<Longrightarrow> k < length xss \<Longrightarrow> i < n \<Longrightarrow>
   concat xss ! (k * n + i) = xss ! k ! i"
proof (induction xss arbitrary: k)
  case Nil
  then show ?case by simp
next
  case (Cons x xss)
  show ?case
  proof (cases k)
    case 0
    with Cons.prems show ?thesis by (simp add: nth_append)
  next
    case (Suc k')
    with Cons.prems have "concat xss ! (k' * n + i) = xss ! k' ! i"
      by (intro Cons.IH) auto
    moreover have "n + k' * n + i - n = k' * n + i" by simp
    ultimately show ?thesis
      using Cons.prems Suc by (simp add: nth_append add.assoc)
  qed
qed

lemma length_concat_uniform:
  "\<forall>x \<in> set xss. length x = n \<Longrightarrow> length (concat xss) = length xss * n"
  by (induction xss) auto

lemma compute_rolling_stats_Inr:
  "0 < mw \<Longrightarrow>
   compute_rolling_stats srt df mw = Inr (concat (map (window_frame (srt df)) [1..<Suc mw]))"
  by (simp add: compute_rolling_stats_def pd_concat_def Let_def del: upt_Suc)

lemma compute_rolling_stats_Inl:
  "compute_rolling_stats srt df 0 = Inl (ValueError ''No objects to concatenate'')"
  by (simp add: compute_rolling_stats_def pd_concat_def)

lemma concat_map_single:
  "distinct xs \<Longrightarrow> concat (map (\<lambda>x. if x = a then F else []) xs) = (if a \<in> set xs then F else [])"
  by (induction xs) auto

lemma filter_window_pass:
  assumes "1 \<le> W" and "W \<le> mw"
  shows "filter (\<lambda>r. rolling_window r = W) (concat (map (window_frame t) [1..<Suc mw]))
           = window_frame t W"
proof -
  have one: "filter (\<lambda>r. rolling_window r = W) (window_frame t w)
               = (if w = W then window_frame t W else [])" for w
    by (auto simp: filter_empty_conv dest: rolling_window_window_frame
             intro!: filter_True)
  have "filter (\<lambda>r. rolling_window r = W) (concat (map (window_frame t) [1..<Suc mw]))
          = concat (map (\<lambda>w. if w = W then window_frame t W else []) [1..<Suc mw])"
    by (simp add: filter_concat comp_def one del: upt_Suc)
  also have "\<dots> = window_frame t W"
    using assms by (subst concat_map_single) (simp_all del: upt_Suc)
  finally show ?thesis .
qed

lemma length_filter_nth:
  assumes "\<And>i. i < length xs \<Longrightarrow> P (xs ! i) = Q i"
  shows "length (filter P xs) = length (filter Q [0..<length xs])"
proof -
  have "filter P xs = filter P (map ((!) xs) [0..<length xs])"
    by (simp add: map_nth)
  also have "\<dots> = map ((!) xs) (filter (\<lambda>i. P (xs ! i)) [0..<length xs])"
    by (simp add: filter_map comp_def)
  also have "filter (\<lambda>i. P (xs ! i)) [0..<length xs] = filter Q [0..<length xs]"
    by (rule filter_cong) (auto simp: assms)
  finally show ?thesis by simp
qed

lemma length_filter_ge: "length (filter (\<lambda>i. a \<le> i) [0..<n]) = n - a"
  by (induction n) (auto simp: Suc_diff_le)

lemma length_filter_Suc_less: "length (filter (\<lambda>i. Suc i < b) [0..<n]) = min (b - 1) n"
  by (induction n) auto

text \<open>
  C1. For a timeline \<open>t\<close> (the sorted frame) of length \<open>L\<close> and every window size
  \<open>W\<close> from 1 to \<open>Wmax\<close>, the generator returns \<open>Wmax * L\<close> rows; the row of
  position \<open>i\<close> in the pass of \<open>W\<close> is row \<open>(W - 1) * L + i\<close>. Its rolling average,
  on-base rate and slugging are the means of \<open>is_hit\<close>, \<open>is_on_base\<close> and
  \<open>total_bases\<close> over the positions \<open>i - W + 1, \<dots>, i\<close>, defined exactly when
  \<open>i \<ge> W - 1\<close>; its three targets are the signals of position \<open>i + 1\<close>, defined
  exactly when \<open>i + 1 < L\<close>.
\<close>

theorem compute_rolling_stats_rows:
  assumes "1 \<le> W" and "W \<le> Wmax" and "i < length (srt df)"
  shows "\<exists>rows. compute_rolling_stats srt df Wmax = Inr rows \<and>
           length rows = Wmax * length (srt df) \<and>
           (let t = srt df; L = length t; r = rows ! ((W - 1) * L + i) in
              player_id r = batter (t ! i) \<and> obs_date r = game_date (t ! i) \<and>
              rolling_window r = W \<and>
              rolling_avg r =
                (if W - 1 \<le> i
                 then Some ((\<Sum>j = i + 1 - W..i. of_int (is_hit (t ! j))) / of_nat W) else None) \<and>
              rolling_obp r =
                (if W - 1 \<le> i
                 then Some ((\<Sum>j = i + 1 - W..i. of_int (is_on_base (t ! j))) / of_nat W) else None) \<and>
              rolling_slg r =
                (if W - 1 \<le> i
                 then Some ((\<Sum>j = i + 1 - W..i. total_bases (t ! j)) / of_nat W) else None) \<and>
              next_is_hit r =
                (if i + 1 < L then Some (of_int (is_hit (t ! (i + 1)))) else None) \<and>
              next_is_on_base r =
                (if i + 1 < L then Some (of_int (is_on_base (t ! (i + 1)))) else None) \<and>
              next_total_bases r =
                (if i + 1 < L then Some (total_bases (t ! (i + 1))) else None))"
proof -
  let ?t = "srt df"
  let ?frames = "map (window_frame ?t) [1..<Suc Wmax]"
  from assms have mw: "0 < Wmax" by simp
  have crs: "compute_rolling_stats srt df Wmax = Inr (concat ?frames)"
    using mw by (rule compute_rolling_stats_Inr)
  have uni: "\<forall>x \<in> set ?frames. length x = length ?t"
    by (auto simp: length_window_frame)
  have len: "length (concat ?frames) = Wmax * length ?t"
    using length_concat_uniform [OF uni] by simp
  have k: "W - 1 < length ?frames"
    using assms by simp
  have "?frames ! (W - 1) = window_frame ?t W"
    using assms by (simp add: nth_map_upt del: upt_Suc)
  then have row: "concat ?frames ! ((W - 1) * length ?t + i) = window_frame ?t W ! i"
    using nth_concat_uniform [OF uni k assms(3)] by simp
  have W: "0 < W" using assms by simp
  have le: "W - 1 \<le> i \<longleftrightarrow> W \<le> Suc i"
    using W by arith
  define rows where "rows = concat ?frames"
  have r: "rows ! ((W - 1) * length ?t + i) = window_frame ?t W ! i"
    unfolding rows_def by (rule row)
  have "compute_rolling_stats srt df Wmax = Inr rows"
    unfolding rows_def by (rule crs)
  moreover have "length rows = Wmax * length ?t"
    unfolding rows_def by (rule len)
  moreover note r [simplified] le [simplified]
  ultimately show ?thesis
    by (intro exI [of _ rows]) (simp add: Let_def nth_window_frame [OF W assms(3)])
qed

theorem compute_rolling_stats_rows_witness:
  "(let df = get_pa_outcomes
               [\<lparr>batter = 7, game_date = 3, events = Some ''home_run''\<rparr>,
                \<lparr>batter = 7, game_date = 1, events = Some ''single''\<rparr>,
                \<lparr>batter = 7, game_date = 2, events = Some ''walk''\<rparr>]
    in (1::nat) \<le> 2 \<and> (2::nat) \<le> 2 \<and> 1 < length (stable_sort_values df) \<and>
       (\<exists>rows. compute_rolling_stats stable_sort_values df 2 = Inr rows \<and> length rows = 6 \<and>
          player_id (rows ! 4) = 7 \<and> obs_date (rows ! 4) = 2 \<and> rolling_window (rows ! 4) = 2 \<and>
          rolling_avg (rows ! 4) = Some (1 / 2) \<and> rolling_obp (rows ! 4) = Some 1 \<and>
          rolling_slg (rows ! 4) = Some (1 / 2) \<and> next_is_hit (rows ! 4) = Some 1 \<and>
          next_is_on_base (rows ! 4) = Some 1 \<and> next_total_bases (rows ! 4) = Some 4))"
proof -
  let ?df = "get_pa_outcomes
               [\<lparr>batter = 7, game_date = 3, events = Some ''home_run''\<rparr>,
                \<lparr>batter = 7, game_date = 1, events = Some ''single''\<rparr>,
                \<lparr>batter = 7, game_date = 2, events = Some ''walk''\<rparr>]"
  have t: "stable_sort_values ?df =
             [label_row \<lparr>batter = 7, game_date = 1, events = Some ''single''\<rparr>,
              label_row \<lparr>batter = 7, game_date = 2, events = Some ''walk''\<rparr>,
              label_row \<lparr>batter = 7, game_date = 3, events = Some ''home_run''\<rparr>]"
    by (simp add: stable_sort_values_def get_pa_outcomes_def label_row_def)
  have h1: "(1::nat) \<le> 2" and h2: "(2::nat) \<le> 2" and h3: "1 < length (stable_sort_values ?df)"
    by (simp_all add: t)
  have s: "(\<Sum>j = Suc 0..Suc 0. f j) = f (Suc 0)" "(\<Sum>j = 0..Suc 0. f j) = f 0 + f (Suc 0)" for f :: "nat \<Rightarrow> rat"
    by simp_all
  from compute_rolling_stats_rows [of 2 2 1 stable_sort_values ?df, OF h1 h2 h3] h3 show ?thesis
    by (simp add: Let_def t s label_row_def isin_def astype_int_def hit_events_def on_base_events_def
          map_dict_def fillna_def bases_dict_def eval_nat_numeral)
qed

lemma length_filter_range: "length (filter (\<lambda>i. a \<le> i \<and> Suc i < b) [0..<n]) = min (b - 1) n - a"
  by (induction n) (auto simp: Suc_diff_le)

text \<open>
  C5. In the pass of a window size \<open>W\<close> over a timeline of length \<open>L\<close>, each of the
  three rolling statistics is defined at \<open>max(0, L - W + 1)\<close> positions and each of
  the three targets at \<open>max(0, L - 1)\<close> positions.
\<close>

theorem rolling_support_counts:
  assumes "1 \<le> W" and "W \<le> Wmax"
  shows "\<exists>rows. compute_rolling_stats srt df Wmax = Inr rows \<and>
           (let L = length (srt df); pass = filter (\<lambda>r. rolling_window r = W) rows in
              int (length (filter (\<lambda>r. rolling_avg r \<noteq> None) pass)) = max 0 (int L - int W + 1) \<and>
              int (length (filter (\<lambda>r. rolling_obp r \<noteq> None) pass)) = max 0 (int L - int W + 1) \<and>
              int (length (filter (\<lambda>r. rolling_slg r \<noteq> None) pass)) = max 0 (int L - int W + 1) \<and>
              int (length (filter (\<lambda>r. next_is_hit r \<noteq> None) pass)) = max 0 (int L - 1) \<and>
              int (length (filter (\<lambda>r. next_is_on_base r \<noteq> None) pass)) = max 0 (int L - 1) \<and>
              int (length (filter (\<lambda>r. next_total_bases r \<noteq> None) pass)) = max 0 (int L - 1))"
proof -
  let ?t = "srt df"
  let ?L = "length ?t"
  let ?F = "window_frame ?t W"
  from assms have W: "0 < W" and mw: "0 < Wmax" by simp_all
  have crs: "compute_rolling_stats srt df Wmax = Inr (concat (map (window_frame ?t) [1..<Suc Wmax]))"
    using mw by (rule compute_rolling_stats_Inr)
  have pass: "filter (\<lambda>r. rolling_window r = W) (concat (map (window_frame ?t) [1..<Suc Wmax])) = ?F"
    using assms by (rule filter_window_pass)
  have lenF: "length ?F = ?L"
    by (rule length_window_frame)
  have roll: "length (filter (\<lambda>i. W \<le> Suc i) [0..<?L]) = Suc ?L - W"
  proof -
    have "filter (\<lambda>i. W \<le> Suc i) [0..<?L] = filter (\<lambda>i. W - 1 \<le> i) [0..<?L]"
      using W by (intro filter_cong) auto
    then show ?thesis
      using W by (simp add: length_filter_ge)
  qed
  have targ: "length (filter (\<lambda>i. Suc i < ?L) [0..<?L]) = ?L - 1"
    by (simp add: length_filter_Suc_less)
  have a: "length (filter (\<lambda>r. rolling_avg r \<noteq> None) ?F) = Suc ?L - W"
    using length_filter_nth [of ?F "\<lambda>r. rolling_avg r \<noteq> None" "\<lambda>i. W \<le> Suc i"]
    by (simp add: lenF nth_window_frame [OF W] roll)
  have b: "length (filter (\<lambda>r. rolling_obp r \<noteq> None) ?F) = Suc ?L - W"
    using length_filter_nth [of ?F "\<lambda>r. rolling_obp r \<noteq> None" "\<lambda>i. W \<le> Suc i"]
    by (simp add: lenF nth_window_frame [OF W] roll)
  have c: "length (filter (\<lambda>r. rolling_slg r \<noteq> None) ?F) = Suc ?L - W"
    using length_filter_nth [of ?F "\<lambda>r. rolling_slg r \<noteq> None" "\<lambda>i. W \<le> Suc i"]
    by (simp add: lenF nth_window_frame [OF W] roll)
  have d: "length (filter (\<lambda>r. next_is_hit r \<noteq> None) ?F) = ?L - 1"
    using length_filter_nth [of ?F "\<lambda>r. next_is_hit r \<noteq> None" "\<lambda>i. Suc i < ?L"]
    by (simp add: lenF nth_window_frame [OF W] targ)
  have e: "length (filter (\<lambda>r. next_is_on_base r \<noteq> None) ?F) = ?L - 1"
    using length_filter_nth [of ?F "\<lambda>r. next_is_on_base r \<noteq> None" "\<lambda>i. Suc i < ?L"]
    by (simp add: lenF nth_window_frame [OF W] targ)
  have f: "length (filter (\<lambda>r. next_total_bases r \<noteq> None) ?F) = ?L - 1"
    using length_filter_nth [of ?F "\<lambda>r. next_total_bases r \<noteq> None" "\<lambda>i. Suc i < ?L"]
    by (simp add: lenF nth_window_frame [OF W] targ)
  have i1: "int (Suc ?L - W) = max 0 (int ?L - int W + 1)"
    by arith
  have i2: "int (?L - 1) = max 0 (int ?L - 1)"
    by arith
  show ?thesis
    unfolding crs
    by (intro exI [of _ "concat (map (window_frame ?t) [1..<Suc Wmax])"])
       (simp only: Let_def pass a b c d e f i1 i2 simp_thms)
qed


theorem rolling_support_counts_witness:
  "(let df = get_pa_outcomes
               [\<lparr>batter = 7, game_date = 3, events = Some ''home_run''\<rparr>,
                \<lparr>batter = 7, game_date = 1, events = Some ''single''\<rparr>,
                \<lparr>batter = 7, game_date = 2, events = Some ''walk''\<rparr>]
    in (1::nat) \<le> 2 \<and> (2::nat) \<le> 4 \<and>
       (\<exists>rows. compute_rolling_stats stable_sort_values df 4 = Inr rows \<and>
          length (filter (\<lambda>r. rolling_avg r \<noteq> None) (filter (\<lambda>r. rolling_window r = 2) rows)) = 2 \<and>
          length (filter (\<lambda>r. next_is_hit r \<noteq> None) (filter (\<lambda>r. rolling_window r = 2) rows)) = 2))"
proof -
  let ?df = "get_pa_outcomes
               [\<lparr>batter = 7, game_date = 3, events = Some ''home_run''\<rparr>,
                \<lparr>batter = 7, game_date = 1, events = Some ''single''\<rparr>,
                \<lparr>batter = 7, game_date = 2, events = Some ''walk''\<rparr>]"
  have L: "length (stable_sort_values ?df) = 3"
    by (simp add: stable_sort_values_def get_pa_outcomes_def)
  have h1: "(1::nat) \<le> 2" and h2: "(2::nat) \<le> 4"
    by simp_all
  from rolling_support_counts [of 2 4 stable_sort_values ?df, OF h1 h2]
  obtain rows where "compute_rolling_stats stable_sort_values ?df 4 = Inr rows"
    and "length (filter (\<lambda>r. rolling_avg r \<noteq> None) (filter (\<lambda>r. rolling_window r = 2) rows)) = 2"
    and "length (filter (\<lambda>r. next_is_hit r \<noteq> None) (filter (\<lambda>r. rolling_window r = 2) rows)) = 2"
    by (auto simp: Let_def L)
  then show ?thesis
    unfolding Let_def by (intro conjI h1 h2 exI [of _ rows])
qed

section \<open>Properties of the aggregation over players\<close>

lemma sorts_by_game_date_stable: "sorts_by_game_date stable_sort_values"
  by (simp add: sorts_by_game_date_def stable_sort_values_def)

lemma sorts_set: "sorts_by_game_date srt \<Longrightarrow> set (srt df) = set df"
  by (auto simp: sorts_by_game_date_def dest: mset_eq_setD)

lemma sorts_length: "sorts_by_game_date srt \<Longrightarrow> length (srt df) = length df"
  by (auto simp: sorts_by_game_date_def dest: mset_eq_length)

lemma compute_rolling_stats_default:
  "compute_rolling_stats srt g 250 = Inr (player_frame srt g)"
  unfolding player_frame_def by (rule compute_rolling_stats_Inr) simp

lemma process_groups_Inr:
  "process_groups srt gs acc =
     Inr (acc @ map (\<lambda>(b, g). player_frame srt g) (filter (\<lambda>(b, g). 260 \<le> length g) gs))"
  by (induction gs arbitrary: acc) (auto simp: compute_rolling_stats_default)

lemma batter_label_row: "batter (label_row e) = batter e"
  by (simp add: label_row_def)

lemma length_group_get_pa_outcomes:
  "length (filter (\<lambda>e. batter e = b) (get_pa_outcomes data)) = length (filter (\<lambda>e. batter e = b) data)"
  by (simp add: get_pa_outcomes_def filter_map comp_def batter_label_row)

lemma process_all_players_eq:
  "process_all_players srt data =
     (let d = get_pa_outcomes data;
          qs = filter (\<lambda>b. 260 \<le> length (filter (\<lambda>e. batter e = b) d)) (sort (remdups (map batter d)))
      in if qs = [] then Inl (ValueError ''No objects to concatenate'')
         else Inr (dropna (concat (map (\<lambda>b. player_frame srt (filter (\<lambda>e. batter e = b) d)) qs))))"
  by (simp add: process_all_players_def Let_def process_groups_Inr groupby_batter_def
        filter_map comp_def pd_concat_def)

lemma qualifying_keys:
  "b \<in> set (filter (\<lambda>b. 260 \<le> length (filter (\<lambda>e. batter e = b) d)) (sort (remdups (map batter d))))
     \<longleftrightarrow> 260 \<le> length (filter (\<lambda>e. batter e = b) d)"
proof -
  have "b \<in> batter ` set d" if "260 \<le> length (filter (\<lambda>e. batter e = b) d)"
  proof -
    from that have "filter (\<lambda>e. batter e = b) d \<noteq> []" by auto
    then show ?thesis by (auto simp: filter_empty_conv)
  qed
  then show ?thesis by auto
qed

lemma player_id_window_frame:
  "r \<in> set (window_frame t w) \<Longrightarrow> player_id r \<in> batter ` set t"
  by (auto simp: window_frame_def Let_def)

lemma player_id_player_frame:
  assumes "sorts_by_game_date srt" and "r \<in> set (player_frame srt (filter (\<lambda>e. batter e = b) d))"
  shows "player_id r = b"
proof -
  from assms(2) obtain w where "r \<in> set (window_frame (srt (filter (\<lambda>e. batter e = b) d)) w)"
    by (auto simp: player_frame_def simp del: upt_Suc)
  then have "player_id r \<in> batter ` set (srt (filter (\<lambda>e. batter e = b) d))"
    by (rule player_id_window_frame)
  then show ?thesis
    by (auto simp: sorts_set [OF assms(1)])
qed

lemma filter_player_frames:
  assumes "sorts_by_game_date srt" and "distinct qs"
  shows "filter (\<lambda>r. player_id r = b) (concat (map (\<lambda>b. player_frame srt (filter (\<lambda>e. batter e = b) d)) qs))
           = (if b \<in> set qs then player_frame srt (filter (\<lambda>e. batter e = b) d) else [])"
proof -
  have one: "filter (\<lambda>r. player_id r = b) (player_frame srt (filter (\<lambda>e. batter e = b') d))
               = (if b' = b then player_frame srt (filter (\<lambda>e. batter e = b) d) else [])" for b'
    using player_id_player_frame [OF assms(1)]
    by (auto simp: filter_empty_conv intro!: filter_True)
  have "filter (\<lambda>r. player_id r = b) (concat (map (\<lambda>b. player_frame srt (filter (\<lambda>e. batter e = b) d)) qs))
          = concat (map (\<lambda>b'. if b' = b then player_frame srt (filter (\<lambda>e. batter e = b) d) else []) qs)"
    by (simp add: filter_concat comp_def one)
  also have "\<dots> = (if b \<in> set qs then player_frame srt (filter (\<lambda>e. batter e = b) d) else [])"
    using assms(2) by (rule concat_map_single)
  finally show ?thesis .
qed

text \<open>The rows of one batter in the table that \<open>process_all_players\<close> returns.\<close>

lemma rows_of_player:
  assumes "sorts_by_game_date srt" and "process_all_players srt data = Inr rows"
  shows "filter (\<lambda>r. player_id r = b) rows =
           (if 260 \<le> length (filter (\<lambda>e. batter e = b) data)
            then dropna (player_frame srt (filter (\<lambda>e. batter e = b) (get_pa_outcomes data))) else [])"
proof -
  let ?d = "get_pa_outcomes data"
  let ?qs = "filter (\<lambda>b. 260 \<le> length (filter (\<lambda>e. batter e = b) ?d)) (sort (remdups (map batter ?d)))"
  let ?all = "concat (map (\<lambda>b. player_frame srt (filter (\<lambda>e. batter e = b) ?d)) ?qs)"
  from assms(2) have rows: "rows = dropna ?all"
    by (simp add: process_all_players_eq Let_def split: if_splits)
  have dist: "distinct ?qs" by simp
  have "filter (\<lambda>r. player_id r = b) rows = dropna (filter (\<lambda>r. player_id r = b) ?all)"
    unfolding rows dropna_def by (simp add: conj_commute)
  also have "\<dots> = (if b \<in> set ?qs then dropna (player_frame srt (filter (\<lambda>e. batter e = b) ?d)) else [])"
    by (simp only: filter_player_frames [OF assms(1) dist]) (simp add: dropna_def)
  also have "b \<in> set ?qs \<longleftrightarrow> 260 \<le> length (filter (\<lambda>e. batter e = b) data)"
    using qualifying_keys [of b ?d] unfolding length_group_get_pa_outcomes .
  finally show ?thesis .
qed

lemma notna_nth_window_frame:
  "0 < w \<Longrightarrow> i < length t \<Longrightarrow> notna (window_frame t w ! i) \<longleftrightarrow> w \<le> Suc i \<and> Suc i < length t"
  by (simp add: nth_window_frame notna_def)

lemma length_dropna_window_frame:
  assumes "0 < w"
  shows "length (dropna (window_frame t w)) = length t - w"
proof -
  have "length (dropna (window_frame t w))
          = length (filter (\<lambda>i. w \<le> Suc i \<and> Suc i < length t) [0..<length t])"
    unfolding dropna_def
    using length_filter_nth [of "window_frame t w" notna "\<lambda>i. w \<le> Suc i \<and> Suc i < length t"]
    by (simp add: length_window_frame notna_nth_window_frame [OF assms])
  also have "filter (\<lambda>i. w \<le> Suc i \<and> Suc i < length t) [0..<length t]
               = filter (\<lambda>i. w - 1 \<le> i \<and> Suc i < length t) [0..<length t]"
    using assms by (intro filter_cong) auto
  also have "length \<dots> = length t - w"
    using assms by (simp add: length_filter_range)
  finally show ?thesis .
qed

lemma filter_window_player_frame:
  assumes "1 \<le> W" and "W \<le> 250"
  shows "filter (\<lambda>r. rolling_window r = W) (player_frame srt g) = window_frame (srt g) W"
  unfolding player_frame_def using assms by (rule filter_window_pass)

lemma qualifying_keys_data:
  "b \<in> set (filter (\<lambda>b. 260 \<le> length (filter (\<lambda>e. batter e = b) (get_pa_outcomes data)))
               (sort (remdups (map batter (get_pa_outcomes data)))))
     \<longleftrightarrow> 260 \<le> length (filter (\<lambda>e. batter e = b) data)"
  using qualifying_keys [of b "get_pa_outcomes data"] unfolding length_group_get_pa_outcomes .

lemma process_all_players_Inl:
  assumes "\<forall>b. length (filter (\<lambda>e. batter e = b) data) < 260"
  shows "process_all_players srt data = Inl (ValueError ''No objects to concatenate'')"
proof -
  let ?d = "get_pa_outcomes data"
  let ?qs = "filter (\<lambda>b. 260 \<le> length (filter (\<lambda>e. batter e = b) ?d)) (sort (remdups (map batter ?d)))"
  have "b \<notin> set ?qs" for b
    unfolding qualifying_keys_data using assms by (simp add: not_le)
  then have "?qs = []"
    by (meson all_not_in_conv set_empty)
  then show ?thesis
    by (simp add: process_all_players_eq Let_def)
qed

lemma process_all_players_Inr:
  assumes "260 \<le> length (filter (\<lambda>e. batter e = b) data)"
  shows "\<exists>rows. process_all_players srt data = Inr rows"
proof -
  let ?d = "get_pa_outcomes data"
  let ?qs = "filter (\<lambda>b. 260 \<le> length (filter (\<lambda>e. batter e = b) ?d)) (sort (remdups (map batter ?d)))"
  have "b \<in> set ?qs"
    unfolding qualifying_keys_data using assms .
  then have "?qs \<noteq> []"
    by (metis empty_iff empty_set)
  then show ?thesis
    by (simp add: process_all_players_eq Let_def)
qed

text \<open>The rows of a qualifying batter for one window size: one for each position
  from \<open>W - 1\<close> to the last but one.\<close>

lemma rows_of_player_window:
  assumes srt: "sorts_by_game_date srt" and rows: "process_all_players srt data = Inr rows"
    and q: "260 \<le> length (filter (\<lambda>e. batter e = b) data)" and W: "1 \<le> W" "W \<le> 250"
  shows "length (filter (\<lambda>r. player_id r = b \<and> rolling_window r = W) rows)
           = length (filter (\<lambda>e. batter e = b) data) - W"
proof -
  let ?g = "filter (\<lambda>e. batter e = b) (get_pa_outcomes data)"
  have "filter (\<lambda>r. player_id r = b \<and> rolling_window r = W) rows
          = filter (\<lambda>r. rolling_window r = W) (filter (\<lambda>r. player_id r = b) rows)"
    by (simp add: conj_commute)
  also have "\<dots> = filter (\<lambda>r. rolling_window r = W) (dropna (player_frame srt ?g))"
    using q by (simp only: rows_of_player [OF srt rows] if_True)
  also have "\<dots> = dropna (filter (\<lambda>r. rolling_window r = W) (player_frame srt ?g))"
    by (simp add: dropna_def conj_commute)
  also have "\<dots> = dropna (window_frame (srt ?g) W)"
    by (simp only: filter_window_player_frame [OF W])
  finally have "length (filter (\<lambda>r. player_id r = b \<and> rolling_window r = W) rows)
                  = length (srt ?g) - W"
    using W by (simp add: length_dropna_window_frame)
  then show ?thesis
    by (simp only: sorts_length [OF srt] length_group_get_pa_outcomes)
qed

text \<open>
  C4. A batter with exactly 259 events has no row in the table that
  \<open>process_all_players\<close> returns. With a batter of exactly 260 events the function
  returns a table, and the table holds 259 rows of that batter for window size 1:
  one for every position but the last, each with all its rolling statistics and
  targets defined.
\<close>

theorem exclusion_threshold:
  assumes "sorts_by_game_date srt"
  shows "(length (filter (\<lambda>e. batter e = b) data) = 259 \<longrightarrow>
            (\<forall>rows. process_all_players srt data = Inr rows \<longrightarrow>
               filter (\<lambda>r. player_id r = b) rows = [])) \<and>
         (length (filter (\<lambda>e. batter e = b) data) = 260 \<longrightarrow>
            (\<exists>rows. process_all_players srt data = Inr rows \<and>
               length (filter (\<lambda>r. player_id r = b \<and> rolling_window r = 1) rows) = 259 \<and>
               list_all notna (filter (\<lambda>r. player_id r = b \<and> rolling_window r = 1) rows)))"
proof (intro conjI impI allI)
  fix rows
  assume "length (filter (\<lambda>e. batter e = b) data) = 259"
    and "process_all_players srt data = Inr rows"
  then show "filter (\<lambda>r. player_id r = b) rows = []"
    by (simp add: rows_of_player [OF assms])
next
  assume L: "length (filter (\<lambda>e. batter e = b) data) = 260"
  then have q: "260 \<le> length (filter (\<lambda>e. batter e = b) data)"
    by simp
  then obtain rows where rows: "process_all_players srt data = Inr rows"
    using process_all_players_Inr by blast
  have "length (filter (\<lambda>r. player_id r = b \<and> rolling_window r = 1) rows) = 259"
    using rows_of_player_window [OF assms rows q, of 1] L by simp
  moreover have "list_all notna rows"
    using rows by (auto simp: process_all_players_eq Let_def dropna_def list_all_iff split: if_splits)
  then have "list_all notna (filter (\<lambda>r. player_id r = b \<and> rolling_window r = 1) rows)"
    by (simp add: list_all_iff)
  ultimately show "\<exists>rows. process_all_players srt data = Inr rows \<and>
       length (filter (\<lambda>r. player_id r = b \<and> rolling_window r = 1) rows) = 259 \<and>
       list_all notna (filter (\<lambda>r. player_id r = b \<and> rolling_window r = 1) rows)"
    using rows by blast
qed

theorem exclusion_threshold_witness:
  "(let data = replicate 259 \<lparr>batter = 7, game_date = 1, events = Some ''single''\<rparr> @
               replicate 260 \<lparr>batter = 8, game_date = 1, events = Some ''walk''\<rparr>
    in sorts_by_game_date stable_sort_values \<and>
       length (filter (\<lambda>e. batter e = 7) data) = 259 \<and>
       length (filter (\<lambda>e. batter e = 8) data) = 260 \<and>
       (\<exists>rows. process_all_players stable_sort_values data = Inr rows \<and>
          filter (\<lambda>r. player_id r = 7) rows = [] \<and>
          length (filter (\<lambda>r. player_id r = 8 \<and> rolling_window r = 1) rows) = 259))"
proof -
  let ?data = "replicate 259 \<lparr>batter = 7, game_date = 1, events = Some ''single''\<rparr> @
               replicate 260 \<lparr>batter = 8, game_date = 1, events = Some ''walk''\<rparr>"
  have c7: "length (filter (\<lambda>e. batter e = 7) ?data) = 259"
    and c8: "length (filter (\<lambda>e. batter e = 8) ?data) = 260"
    by simp_all
  from exclusion_threshold [OF sorts_by_game_date_stable, of 8 ?data] c8
  obtain rows where rows: "process_all_players stable_sort_values ?data = Inr rows"
    and n: "length (filter (\<lambda>r. player_id r = 8 \<and> rolling_window r = 1) rows) = 259"
    by blast
  from exclusion_threshold [OF sorts_by_game_date_stable, of 7 ?data] c7 rows
  have "filter (\<lambda>r. player_id r = 7) rows = []"
    by blast
  with rows n c7 c8 sorts_by_game_date_stable show ?thesis
    unfolding Let_def by blast
qed

text \<open>
  C9. When no batter has 260 events, \<open>process_all_players\<close> does not return a
  table: the caller receives the error that the concatenation of no frames raises.
  When some batter has 260 events it returns a non-empty table, in which a batter
  with fewer than 260 events has no row; that batter causes no error.
\<close>

theorem empty_result_condition:
  assumes "sorts_by_game_date srt"
  shows "((\<forall>b. length (filter (\<lambda>e. batter e = b) data) < 260) \<longrightarrow>
            process_all_players srt data = Inl (ValueError ''No objects to concatenate'')) \<and>
         ((\<exists>b. 260 \<le> length (filter (\<lambda>e. batter e = b) data)) \<longrightarrow>
            (\<exists>rows. process_all_players srt data = Inr rows \<and> rows \<noteq> [] \<and>
               (\<forall>b. length (filter (\<lambda>e. batter e = b) data) < 260 \<longrightarrow>
                  filter (\<lambda>r. player_id r = b) rows = [])))"
proof (intro conjI impI)
  assume "\<forall>b. length (filter (\<lambda>e. batter e = b) data) < 260"
  then show "process_all_players srt data = Inl (ValueError ''No objects to concatenate'')"
    by (rule process_all_players_Inl)
next
  assume "\<exists>b. 260 \<le> length (filter (\<lambda>e. batter e = b) data)"
  then obtain b where q: "260 \<le> length (filter (\<lambda>e. batter e = b) data)" ..
  then obtain rows where rows: "process_all_players srt data = Inr rows"
    using process_all_players_Inr by blast
  have "length (filter (\<lambda>r. player_id r = b \<and> rolling_window r = 1) rows)
          = length (filter (\<lambda>e. batter e = b) data) - 1"
    using rows_of_player_window [OF assms rows q, of 1] by simp
  with q have "filter (\<lambda>r. player_id r = b \<and> rolling_window r = 1) rows \<noteq> []"
    by auto
  then have "rows \<noteq> []"
    by auto
  moreover have "filter (\<lambda>r. player_id r = b') rows = []"
    if "length (filter (\<lambda>e. batter e = b') data) < 260" for b'
    using that by (simp add: rows_of_player [OF assms rows])
  ultimately show "\<exists>rows. process_all_players srt data = Inr rows \<and> rows \<noteq> [] \<and>
      (\<forall>b. length (filter (\<lambda>e. batter e = b) data) < 260 \<longrightarrow> filter (\<lambda>r. player_id r = b) rows = [])"
    using rows by blast
qed

theorem empty_result_condition_witness:
  "sorts_by_game_date stable_sort_values \<and>
   (\<forall>b. length (filter (\<lambda>e. batter e = b)
           (replicate 259 \<lparr>batter = 7, game_date = 1, events = Some ''single''\<rparr>)) < 260) \<and>
   process_all_players stable_sort_values
       (replicate 259 \<lparr>batter = 7, game_date = 1, events = Some ''single''\<rparr>)
     = Inl (ValueError ''No objects to concatenate'') \<and>
   (\<exists>b. 260 \<le> length (filter (\<lambda>e. batter e = b)
           (replicate 259 \<lparr>batter = 7, game_date = 1, events = Some ''single''\<rparr> @
            replicate 260 \<lparr>batter = 8, game_date = 1, events = Some ''walk''\<rparr>))) \<and>
   length (filter (\<lambda>e. batter e = 7)
           (replicate 259 \<lparr>batter = 7, game_date = 1, events = Some ''single''\<rparr> @
            replicate 260 \<lparr>batter = 8, game_date = 1, events = Some ''walk''\<rparr>)) < 260 \<and>
   (\<exists>rows. process_all_players stable_sort_values
             (replicate 259 \<lparr>batter = 7, game_date = 1, events = Some ''single''\<rparr> @
              replicate 260 \<lparr>batter = 8, game_date = 1, events = Some ''walk''\<rparr>) = Inr rows \<and>
           rows \<noteq> [] \<and> filter (\<lambda>r. player_id r = 7) rows = [])"
proof -
  let ?small = "replicate 259 \<lparr>batter = 7, game_date = 1, events = Some ''single''\<rparr>"
  let ?data = "?small @ replicate 260 \<lparr>batter = 8, game_date = 1, events = Some ''walk''\<rparr>"
  have none: "\<forall>b. length (filter (\<lambda>e. batter e = b) ?small) < 260"
  proof
    fix b
    have "length (filter (\<lambda>e. batter e = b) ?small) \<le> length ?small"
      by (rule length_filter_le)
    then show "length (filter (\<lambda>e. batter e = b) ?small) < 260"
      by simp
  qed
  have some: "\<exists>b. 260 \<le> length (filter (\<lambda>e. batter e = b) ?data)"
    by (rule exI [of _ 8]) simp
  have c7: "length (filter (\<lambda>e. batter e = 7) ?data) < 260"
    by simp
  have inl: "process_all_players stable_sort_values ?small = Inl (ValueError ''No objects to concatenate'')"
    using empty_result_condition [OF sorts_by_game_date_stable, of ?small] none by blast
  from empty_result_condition [OF sorts_by_game_date_stable, of ?data] some c7
  have "\<exists>rows. process_all_players stable_sort_values ?data = Inr rows \<and>
           rows \<noteq> [] \<and> filter (\<lambda>r. player_id r = 7) rows = []"
    by blast
  with sorts_by_game_date_stable none some c7 inl show ?thesis
    by (intro conjI)
qed

section \<open>Bounds on the rolling statistics\<close>

lemma card_window: "w \<le> Suc i \<Longrightarrow> card {Suc i - w..i} = w"
  by simp

lemma mean_bounds:
  fixes f g :: "nat \<Rightarrow> rat"
  assumes w: "0 < w" "w \<le> Suc i"
    and fg: "\<And>j. j \<le> i \<Longrightarrow> 0 \<le> f j \<and> f j \<le> g j \<and> g j \<le> c"
  shows "0 \<le> (\<Sum>j = Suc i - w..i. f j) / of_nat w"
    and "(\<Sum>j = Suc i - w..i. f j) / of_nat w \<le> (\<Sum>j = Suc i - w..i. g j) / of_nat w"
    and "(\<Sum>j = Suc i - w..i. g j) / of_nat w \<le> c"
proof -
  have pos: "(0::rat) < of_nat w"
    using w by simp
  have "0 \<le> (\<Sum>j = Suc i - w..i. f j)"
    by (rule sum_nonneg) (simp add: fg)
  then show "0 \<le> (\<Sum>j = Suc i - w..i. f j) / of_nat w"
    using pos by simp
  have "(\<Sum>j = Suc i - w..i. f j) \<le> (\<Sum>j = Suc i - w..i. g j)"
    by (rule sum_mono) (simp add: fg)
  then show "(\<Sum>j = Suc i - w..i. f j) / of_nat w \<le> (\<Sum>j = Suc i - w..i. g j) / of_nat w"
    using pos by (simp add: divide_right_mono)
  have "(\<Sum>j = Suc i - w..i. g j) \<le> of_nat (card {Suc i - w..i}) * c"
    by (rule sum_bounded_above) (simp add: fg)
  then have "(\<Sum>j = Suc i - w..i. g j) \<le> of_nat w * c"
    by (simp only: card_window [OF w(2)])
  then show "(\<Sum>j = Suc i - w..i. g j) / of_nat w \<le> c"
    using pos by (simp add: pos_divide_le_eq mult.commute)
qed

lemma window_frame_bounds:
  assumes w: "0 < w" and r: "r \<in> set (window_frame t w)" and n: "notna r"
    and ok: "\<And>e. e \<in> set t \<Longrightarrow> signals_ok e"
  shows "\<exists>a p s. rolling_avg r = Some a \<and> rolling_obp r = Some p \<and> rolling_slg r = Some s \<and>
           0 \<le> a \<and> a \<le> p \<and> p \<le> 1 \<and> 0 \<le> s \<and> s \<le> 4"
proof -
  from r obtain i where i: "i < length t" and ri: "r = window_frame t w ! i"
    by (auto simp: in_set_conv_nth length_window_frame)
  from n have wi: "w \<le> Suc i"
    unfolding ri by (simp add: notna_nth_window_frame [OF w i])
  have el: "signals_ok (t ! j)" if "j \<le> i" for j
    using that i by (intro ok nth_mem) simp
  have hit: "0 \<le> rat_of_int (is_hit (t ! j)) \<and> rat_of_int (is_hit (t ! j)) \<le> rat_of_int (is_on_base (t ! j))
               \<and> rat_of_int (is_on_base (t ! j)) \<le> 1" if "j \<le> i" for j
    using el [OF that] by (simp add: signals_ok_def)
  have tb: "0 \<le> total_bases (t ! j) \<and> total_bases (t ! j) \<le> total_bases (t ! j)
               \<and> total_bases (t ! j) \<le> 4" if "j \<le> i" for j
    using el [OF that] by (simp add: signals_ok_def)
  note a = mean_bounds [of w i "\<lambda>j. rat_of_int (is_hit (t ! j))" "\<lambda>j. rat_of_int (is_on_base (t ! j))" 1,
      OF w wi hit]
  note s = mean_bounds [of w i "\<lambda>j. total_bases (t ! j)" "\<lambda>j. total_bases (t ! j)" 4, OF w wi tb]
  show ?thesis
    unfolding ri using a s wi by (simp add: nth_window_frame [OF w i])
qed


lemma signals_ok_label_row: "signals_ok (label_row e)"
  unfolding signals_ok_def by (rule label_row_signal_bounds)

lemma set_player_frame:
  "r \<in> set (player_frame srt g) \<longleftrightarrow> (\<exists>w. 1 \<le> w \<and> w \<le> 250 \<and> r \<in> set (window_frame (srt g) w))"
  by (auto simp: player_frame_def simp del: upt_Suc)

lemma set_rows:
  assumes "process_all_players srt data = Inr rows" and "r \<in> set rows"
  shows "notna r \<and> (\<exists>b w. 1 \<le> w \<and> w \<le> 250 \<and>
           r \<in> set (window_frame (srt (filter (\<lambda>e. batter e = b) (get_pa_outcomes data))) w))"
proof -
  from assms(1) have "rows = dropna (concat (map (\<lambda>b. player_frame srt (filter (\<lambda>e. batter e = b) (get_pa_outcomes data)))
      (filter (\<lambda>b. 260 \<le> length (filter (\<lambda>e. batter e = b) (get_pa_outcomes data)))
         (sort (remdups (map batter (get_pa_outcomes data)))))))"
    by (simp add: process_all_players_eq Let_def split: if_splits)
  with assms(2) have n: "notna r"
    and "\<exists>b. r \<in> set (player_frame srt (filter (\<lambda>e. batter e = b) (get_pa_outcomes data)))"
    by (auto simp: dropna_def)
  then show ?thesis
    by (auto simp: set_player_frame)
qed

text \<open>
  C10. Every row of the table that \<open>process_all_players\<close> returns has its three
  rolling statistics defined, with \<open>rolling_avg\<close> between 0 and \<open>rolling_obp\<close>,
  \<open>rolling_obp\<close> at most 1, and \<open>rolling_slg\<close> between 0 and 4.
\<close>

theorem rolling_rates_bounded:
  assumes "sorts_by_game_date srt" and "process_all_players srt data = Inr rows" and "r \<in> set rows"
  shows "\<exists>a p s. rolling_avg r = Some a \<and> rolling_obp r = Some p \<and> rolling_slg r = Some s \<and>
           0 \<le> a \<and> a \<le> p \<and> p \<le> 1 \<and> 0 \<le> s \<and> s \<le> 4"
proof -
  from set_rows [OF assms(2,3)] obtain b w where n: "notna r" and w: "1 \<le> w"
    and r: "r \<in> set (window_frame (srt (filter (\<lambda>e. batter e = b) (get_pa_outcomes data))) w)"
    by blast
  have ok: "signals_ok e"
    if "e \<in> set (srt (filter (\<lambda>e. batter e = b) (get_pa_outcomes data)))" for e
  proof -
    from that have "e \<in> set (get_pa_outcomes data)"
      by (simp add: sorts_set [OF assms(1)])
    then show ?thesis
      by (auto simp: get_pa_outcomes_def signals_ok_label_row)
  qed
  from w have "0 < w" by simp
  then show ?thesis
    using r n ok by (rule window_frame_bounds)
qed


theorem rolling_rates_bounded_witness:
  "(let data = replicate 260 \<lparr>batter = 8, game_date = 1, events = Some ''double''\<rparr>;
        r = \<lparr>player_id = 8, obs_date = 1, rolling_window = 1,
              rolling_avg = Some 1, rolling_obp = Some 1, rolling_slg = Some 2,
              next_is_hit = Some 1, next_is_on_base = Some 1, next_total_bases = Some 2\<rparr>
    in sorts_by_game_date stable_sort_values \<and>
       (\<exists>rows. process_all_players stable_sort_values data = Inr rows \<and> r \<in> set rows) \<and>
       (\<exists>a p s. rolling_avg r = Some a \<and> rolling_obp r = Some p \<and> rolling_slg r = Some s \<and>
          0 \<le> a \<and> a \<le> p \<and> p \<le> 1 \<and> 0 \<le> s \<and> s \<le> 4))"
proof -
  let ?e = "\<lparr>batter = 8, game_date = 1, events = Some ''double''\<rparr>"
  let ?data = "replicate 260 ?e"
  let ?r = "\<lparr>player_id = 8, obs_date = 1, rolling_window = 1,
              rolling_avg = Some 1, rolling_obp = Some 1, rolling_slg = Some 2,
              next_is_hit = Some 1, next_is_on_base = Some 1, next_total_bases = Some 2\<rparr>"
  let ?g = "filter (\<lambda>e. batter e = 8) (get_pa_outcomes ?data)"
  let ?t = "stable_sort_values ?g"
  have g: "?g = replicate 260 (label_row ?e)"
    by (simp add: get_pa_outcomes_def filter_replicate batter_label_row)
  have t: "?t = replicate 260 (label_row ?e)"
    unfolding g stable_sort_values_def by (rule sort_key_id_if_sorted) simp
  have "window_frame ?t 1 ! 0 = ?r"
    unfolding t
    by (subst nth_window_frame)
       (simp_all add: label_row_def isin_def astype_int_def hit_events_def on_base_events_def
          map_dict_def fillna_def bases_dict_def)
  moreover have "window_frame ?t 1 ! 0 \<in> set (window_frame ?t 1)"
    unfolding t by (rule nth_mem) (simp add: length_window_frame)
  ultimately have "?r \<in> set (window_frame ?t 1)"
    by simp
  then have "?r \<in> set (player_frame stable_sort_values ?g)"
    unfolding set_player_frame by (intro exI [of _ 1]) simp
  moreover have "notna ?r"
    by (simp add: notna_def)
  ultimately have in_frame: "?r \<in> set (dropna (player_frame stable_sort_values ?g))"
    by (simp add: dropna_def)
  have q: "260 \<le> length (filter (\<lambda>e. batter e = 8) ?data)"
    by (simp add: filter_replicate)
  then obtain rows where rows: "process_all_players stable_sort_values ?data = Inr rows"
    using process_all_players_Inr by blast
  have "filter (\<lambda>r. player_id r = 8) rows = dropna (player_frame stable_sort_values ?g)"
    using q by (simp only: rows_of_player [OF sorts_by_game_date_stable rows] if_True)
  with in_frame have "?r \<in> set (filter (\<lambda>r. player_id r = 8) rows)"
    by simp
  then have mem: "?r \<in> set rows"
    by simp
  from rolling_rates_bounded [OF sorts_by_game_date_stable rows mem] rows mem
    sorts_by_game_date_stable
  show ?thesis
    unfolding Let_def by blast
qed

end
